theory Spec2Isabelle
  imports Main "HOL-Library.Sublist" "HOL-Library.AList"
begin

section \<open>Values, errors and promises\<close>

text \<open>
  The preference values the store keeps are JavaScript values. The accessor
  \<^verbatim>\<open>userPreferences?.value?.[key] ?? null\<close> tells \<^verbatim>\<open>undefined\<close> and \<^verbatim>\<open>null\<close>
  from every other value, so both are part of the model. So are values that the
  structured clone of \<^verbatim>\<open>store.put\<close> refuses: functions and symbols (other platform
  objects it refuses behave like them). A plain object or array is given by its own
  enumerable properties, in order; a lookup takes the first binding of a name.
\<close>

datatype jsval =
    JUndefined
  | JNull
  | JBool bool
  | JNum int
  | JStr string
  | JFunction string
  | JSymbol string
  | JObject "(string \<times> jsval) list"

type_synonym prefs = "(string \<times> jsval) list"

text \<open>Whether the structured clone algorithm accepts a value.\<close>

fun cloneable :: "jsval \<Rightarrow> bool" where
  "cloneable (JFunction f) = False"
| "cloneable (JSymbol d) = False"
| "cloneable (JObject ps) = list_all (\<lambda>p. cloneable (snd p)) ps"
| "cloneable v = True"

text \<open>
  The members every plain object inherits from \<^verbatim>\<open>Object.prototype\<close>: eleven
  functions, and the accessor \<^verbatim>\<open>__proto__\<close>, which returns the prototype itself, an
  object without enumerable properties.
\<close>

definition inherited_functions :: "string list" where
  "inherited_functions =
     [''constructor'', ''hasOwnProperty'', ''isPrototypeOf'', ''propertyIsEnumerable'',
      ''toLocaleString'', ''toString'', ''valueOf'', ''__defineGetter__'',
      ''__defineSetter__'', ''__lookupGetter__'', ''__lookupSetter__'']"

definition inherited_names :: "string list" where
  "inherited_names = ''__proto__'' # inherited_functions"

definition object_prototype :: "string \<Rightarrow> jsval" where
  "object_prototype key =
     (if key = ''__proto__'' then JObject []
      else if key \<in> set inherited_functions then JFunction key
      else JUndefined)"

text \<open>
  \<^verbatim>\<open>obj[key]\<close> on a plain object, as a record read back from the store is: an own
  property first, then the prototype; a name found in neither reads as \<^verbatim>\<open>undefined\<close>.
\<close>

definition get_property :: "prefs \<Rightarrow> string \<Rightarrow> jsval" where
  "get_property obj key = (case map_of obj key of None \<Rightarrow> object_prototype key | Some v \<Rightarrow> v)"

text \<open>\<^verbatim>\<open>x ?? null\<close>\<close>

definition or_null :: "jsval \<Rightarrow> jsval" where
  "or_null x = (case x of JUndefined \<Rightarrow> JNull | JNull \<Rightarrow> JNull | _ \<Rightarrow> x)"

text \<open>
  What a \<^verbatim>\<open>throw\<close> throws and a promise is rejected with: an error object with its
  name and message, or \<^verbatim>\<open>null\<close>, which \<^verbatim>\<open>transaction.error\<close> is as long as the
  transaction has not failed.
\<close>

datatype js_error = JsError (err_name: string) (err_message: string) | JsNull

text \<open>\<^verbatim>\<open>message.includes(s)\<close>: \<open>s\<close> occurs in \<open>msg\<close> as a contiguous substring.\<close>

fun str_includes :: "string \<Rightarrow> string \<Rightarrow> bool" where
  "str_includes [] s = (s = [])"
| "str_includes (c # cs) s = (prefix s (c # cs) \<or> str_includes cs s)"

definition username_required :: js_error where
  "username_required = JsError ''Error'' ''Username is required''"

definition failed_to_open :: js_error where
  "failed_to_open = JsError ''Error'' ''Failed to open database''"

definition max_retry_reached :: js_error where
  "max_retry_reached = JsError ''Error'' ''Max retry attempts reached for database connection''"

definition connection_lost :: js_error where
  "connection_lost = JsError ''Error'' ''Database connection lost''"

definition transaction_aborted :: js_error where
  "transaction_aborted = JsError ''Error'' ''Transaction was aborted''"

text \<open>Exceptions raised by the browser's storage engine and by the language runtime.\<close>

definition invalid_state_error :: js_error where
  "invalid_state_error = JsError ''InvalidStateError'' ''The database connection is closing.''"

definition not_found_error :: js_error where
  "not_found_error = JsError ''NotFoundError'' ''One of the specified object stores was not found.''"

definition version_error :: js_error where
  "version_error = JsError ''VersionError'' ''The requested version is less than the existing version.''"

definition data_clone_error :: js_error where
  "data_clone_error = JsError ''DataCloneError'' ''The object could not be cloned.''"

definition abort_error :: js_error where
  "abort_error = JsError ''AbortError'' ''The transaction was aborted, so the request cannot be fulfilled.''"

definition data_error :: js_error where
  "data_error = JsError ''DataError'' ''Evaluating the object store's key path did not yield a value.''"

definition read_only_error :: js_error where
  "read_only_error = JsError ''ReadOnlyError'' ''The transaction is read-only.''"

definition invalid_access_error :: js_error where
  "invalid_access_error = JsError ''InvalidAccessError'' ''The storeNames parameter was empty.''"

definition unknown_error :: js_error where
  "unknown_error = JsError ''UnknownError'' ''Internal error opening backing store.''"

definition type_error :: js_error where
  "type_error = JsError ''TypeError'' ''not a function or a property of null''"

text \<open>
  A promise settles once: \<^verbatim>\<open>resolve\<close> and \<^verbatim>\<open>reject\<close> act on a pending promise
  only and are ignored afterwards.
\<close>

datatype 'a pstate = Pending | Fulfilled 'a | Rejected js_error

definition resolve :: "'a \<Rightarrow> 'a pstate \<Rightarrow> 'a pstate" where
  "resolve v p = (case p of Pending \<Rightarrow> Fulfilled v | _ \<Rightarrow> p)"

definition reject :: "js_error \<Rightarrow> 'a pstate \<Rightarrow> 'a pstate" where
  "reject e p = (case p of Pending \<Rightarrow> Rejected e | _ \<Rightarrow> p)"

text \<open>
  \<^verbatim>\<open>await p\<close>: the value or the exception of a settled promise; on a promise
  that stays pending the caller never resumes (\<open>None\<close>).
\<close>

definition await :: "'a pstate \<Rightarrow> (js_error + 'a) option" where
  "await p = (case p of Pending \<Rightarrow> None | Fulfilled v \<Rightarrow> Some (Inr v) | Rejected e \<Rightarrow> Some (Inl e))"

section \<open>UserPreferencesStoreManager: construction\<close>

record store_manager =
  username :: string
  sm_isInitialized :: bool

text \<open>
  The owner argument is a string that may be absent (\<open>None\<close> for \<^verbatim>\<open>undefined\<close> or
  \<^verbatim>\<open>null\<close>); \<^verbatim>\<open>!username\<close> holds of an absent and of the empty string.
\<close>

definition falsy :: "string option \<Rightarrow> bool" where
  "falsy u = (case u of None \<Rightarrow> True | Some s \<Rightarrow> s = [])"

definition sm_constructor :: "string option \<Rightarrow> js_error + store_manager" where
  "sm_constructor u =
     (case u of
        None \<Rightarrow> Inl username_required
      | Some s \<Rightarrow>
          if s = [] then Inl username_required
          else Inr \<lparr>username = s, sm_isInitialized = False\<rparr>)"

text \<open>
  \<^verbatim>\<open>getInstance\<close> on the static \<^verbatim>\<open>instance\<close> slot: the slot is replaced when it is
  empty or holds another owner's manager; when the constructor throws, the slot keeps
  what it held.
\<close>

definition sm_getInstance ::
  "string option \<Rightarrow> store_manager option \<Rightarrow> (js_error + store_manager) \<times> store_manager option" where
  "sm_getInstance u inst =
     (case inst of
        None \<Rightarrow>
          (case sm_constructor u of
             Inl e \<Rightarrow> (Inl e, inst)
           | Inr m \<Rightarrow> (Inr m, Some m))
      | Some i \<Rightarrow>
          if Some (username i) \<noteq> u then
            (case sm_constructor u of
               Inl e \<Rightarrow> (Inl e, inst)
             | Inr m \<Rightarrow> (Inr m, Some m))
          else (Inr i, inst))"

text \<open>The invariant of the static slot: a manager it holds has a non-empty owner key.\<close>

definition live_ok :: "store_manager option \<Rightarrow> bool" where
  "live_ok inst = (case inst of None \<Rightarrow> True | Some i \<Rightarrow> username i \<noteq> [])"

section \<open>The browser's database\<close>

datatype tx_mode = Readonly | Readwrite

text \<open>A preference record \<^verbatim>\<open>{ username, value }\<close> and an object store with its key path.\<close>

record pref_record =
  rec_username :: string
  rec_value :: prefs

record obj_store =
  keyPath :: string
  records :: "string \<rightharpoonup> pref_record"

text \<open>
  A connection (\<^verbatim>\<open>IDBDatabase\<close>): the version and the store names are those of the
  moment it was opened; \<open>onversionchange\<close> tells whether a handler is attached.
\<close>

record connection =
  conn_id :: nat
  version :: nat
  objectStoreNames :: "string list"
  onversionchange :: bool

text \<open>The event handlers of the source, one constructor per closure.\<close>

datatype callback =
    TxRejectError
  | TxRejectAborted
  | GetResolveResult
  | GetRejectError
  | SetResolveRequest
  | SetRejectError

record txn =
  tx_conn :: nat
  tx_scope :: "string list"
  tx_mode :: tx_mode
  onerror :: "callback option"
  onabort :: "callback option"
  oncomplete :: "callback option"

section \<open>DatabaseManager: state\<close>

text \<open>
  A version-change listener is a callback of the application: it is known by an
  identifier and either returns or throws. A listener that calls back into the
  manager is outside the model.
\<close>

datatype listener = Listener (lid: nat) (throws: "js_error option")

text \<open>
  The fields of the one \<^verbatim>\<open>DatabaseManager\<close> of the tab, followed by the browser side:
  the database (version \<open>0\<close>: not created yet), the table of connection promises, the
  identifiers of the connections closed so far, and the observable effects (open
  requests, timer delays, listener calls, broadcast messages). \<open>open_fault\<close> and
  \<open>tx_fault\<close> are the environment: whether the open request of a promise errors, and
  the exception the \<open>n\<close>-th call of \<^verbatim>\<open>db.transaction\<close> throws, if any.
  \<^verbatim>\<open>retryDelay\<close> is read by \<^verbatim>\<open>_retryConnection\<close> and assigned nowhere, so it is
  \<open>None\<close> unless a caller sets it.
\<close>

record world =
  db :: "connection option"
  isInitialized :: bool
  connectionPromise :: "nat option"
  versionChangeListeners :: "listener list"
  connectionRetryCount :: nat
  maxRetries :: nat
  retryDelay :: "nat option"
  idb_version :: nat
  idb_stores :: "(string \<times> obj_store) list"
  promises :: "nat \<Rightarrow> connection pstate"
  next_promise :: nat
  next_conn :: nat
  closed_conns :: "nat list"
  open_log :: "(nat \<times> nat option) list"
  open_fault :: "nat \<Rightarrow> bool"
  tx_fault :: "nat \<Rightarrow> js_error option"
  tx_calls :: nat
  sleeps :: "nat list"
  listener_calls :: "nat list"
  posted :: "string list"

text \<open>
  The constructor's assignments, on a browser that holds no database yet. The request
  for persistent storage and the \<^verbatim>\<open>unload\<close> listener of the constructor touch none
  of these fields.
\<close>

definition new_manager :: "(nat \<Rightarrow> bool) \<Rightarrow> (nat \<Rightarrow> js_error option) \<Rightarrow> world" where
  "new_manager ofault tfault =
     \<lparr>db = None, isInitialized = False, connectionPromise = None,
      versionChangeListeners = [], connectionRetryCount = 0, maxRetries = 3,
      retryDelay = None,
      idb_version = 0, idb_stores = [], promises = (\<lambda>_. Pending), next_promise = 0,
      next_conn = 0, closed_conns = [], open_log = [], open_fault = ofault,
      tx_fault = tfault, tx_calls = 0, sleeps = [], listener_calls = [], posted = []\<rparr>"

text \<open>\<^verbatim>\<open>db.close()\<close>\<close>

definition close_conn :: "connection \<Rightarrow> world \<Rightarrow> world" where
  "close_conn c w = w\<lparr>closed_conns := conn_id c # closed_conns w\<rparr>"

text \<open>
  How the browser settles an open request. Without a version the database is opened at
  its current version, or created at version 1; a requested version below the current
  one is a \<^verbatim>\<open>VersionError\<close>; a higher one runs the upgrade step, in which the
  handler of \<^verbatim>\<open>createObjectStore\<close> (given by its store name and key path) adds the
  store if the database has none of that name.
\<close>

definition idb_open ::
  "nat \<Rightarrow> nat option \<Rightarrow> (string \<times> string) option \<Rightarrow> world \<Rightarrow> (js_error + connection) \<times> world" where
  "idb_open p ver upgrade w =
     (if open_fault w p then (Inl unknown_error, w)
      else
        let cur = idb_version w;
            req = (case ver of None \<Rightarrow> (if cur = 0 then 1 else cur) | Some v \<Rightarrow> v)
        in
          if req = 0 then (Inl type_error, w)
          else if req < cur then (Inl version_error, w)
          else
            let stores =
                  (if cur < req then
                     (case upgrade of
                        None \<Rightarrow> idb_stores w
                      | Some (storeName, kp) \<Rightarrow>
                          if storeName \<in> set (map fst (idb_stores w)) then idb_stores w
                          else idb_stores w @ [(storeName, \<lparr>keyPath = kp, records = Map.empty\<rparr>)])
                   else idb_stores w);
                c = \<lparr>conn_id = next_conn w, version = req,
                     objectStoreNames = map fst stores, onversionchange = False\<rparr>
            in (Inr c, w\<lparr>idb_version := req, idb_stores := stores, next_conn := Suc (next_conn w)\<rparr>))"

section \<open>DatabaseManager: connection\<close>

text \<open>
  \<^verbatim>\<open>initialize()\<close> has no suspension point: it returns the promise in flight, or
  issues the open request and stores the new promise. The request's handlers run
  later, when the browser settles the request.
\<close>

definition initialize :: "world \<Rightarrow> nat \<times> world" where
  "initialize w =
     (case connectionPromise w of
        Some p \<Rightarrow> (p, w)
      | None \<Rightarrow>
          let p = next_promise w
          in (p, w\<lparr>connectionPromise := Some p, next_promise := Suc p,
                   promises := (promises w)(p := Pending),
                   open_log := open_log w @ [(p, None)]\<rparr>))"

definition request_onerror :: "nat \<Rightarrow> world \<Rightarrow> world" where
  "request_onerror p w =
     w\<lparr>isInitialized := False, connectionPromise := None,
       promises := (promises w)(p := reject failed_to_open (promises w p))\<rparr>"

definition request_onsuccess :: "nat \<Rightarrow> connection \<Rightarrow> world \<Rightarrow> world" where
  "request_onsuccess p c w =
     (let c' = c\<lparr>onversionchange := True\<rparr>
      in w\<lparr>db := Some c', isInitialized := True,
           promises := (promises w)(p := resolve c' (promises w p))\<rparr>)"

text \<open>The browser settles the open request of promise \<open>p\<close> and fires its handler.\<close>

definition complete_open :: "nat \<Rightarrow> world \<Rightarrow> world" where
  "complete_open p w =
     (case idb_open p None None w of
        (Inl e, w1) \<Rightarrow> request_onerror p w1
      | (Inr c, w1) \<Rightarrow> request_onsuccess p c w1)"

text \<open>\<^verbatim>\<open>await this.initialize()\<close>: a pending request is settled before the caller resumes.\<close>

definition await_initialize :: "world \<Rightarrow> (js_error + connection) option \<times> world" where
  "await_initialize w =
     (case initialize w of
        (p, w1) \<Rightarrow>
          let w2 = (case promises w1 p of Pending \<Rightarrow> complete_open p w1 | _ \<Rightarrow> w1)
          in (await (promises w2 p), w2))"






definition unregister :: "listener \<Rightarrow> world \<Rightarrow> world" where
  "unregister cb w = w\<lparr>versionChangeListeners := removeAll cb (versionChangeListeners w)\<rparr>"

text \<open>
  \<^verbatim>\<open>createObjectStore(storeName, options)\<close>, with \<open>kp\<close> the key path of the options.
  The promise it returns takes the next promise identifier.
\<close>

definition createObjectStore ::
  "string \<Rightarrow> string \<Rightarrow> world \<Rightarrow> (js_error + connection) \<times> world" where
  "createObjectStore storeName kp w =
     (let currentVersion = (case db w of Some c \<Rightarrow> version c | None \<Rightarrow> 0);
          newVersion = currentVersion + 1;
          w1 = (case db w of Some c \<Rightarrow> (close_conn c w)\<lparr>db := None\<rparr> | None \<Rightarrow> w);
          p = next_promise w1;
          w2 = w1\<lparr>next_promise := Suc p, open_log := open_log w1 @ [(p, Some newVersion)]\<rparr>
      in case idb_open p (Some newVersion) (Some (storeName, kp)) w2 of
           (Inl e, w3) \<Rightarrow> (Inl e, w3)
         | (Inr c, w3) \<Rightarrow> (Inr c, w3\<lparr>db := Some c, isInitialized := True\<rparr>))"

text \<open>
  The delay handed to \<^verbatim>\<open>setTimeout\<close>: \<^verbatim>\<open>this.retryDelay * this.connectionRetryCount\<close>;
  with \<^verbatim>\<open>retryDelay\<close> undefined the product is \<^verbatim>\<open>NaN\<close>, which the timer takes as 0.
\<close>

definition timeout_delay :: "nat option \<Rightarrow> nat \<Rightarrow> nat" where
  "timeout_delay rd n = (case rd of None \<Rightarrow> 0 | Some d \<Rightarrow> d * n)"

definition retryConnection :: "world \<Rightarrow> (js_error + connection) option \<times> world" where
  "retryConnection w =
     (if connectionRetryCount w \<ge> maxRetries w then (Some (Inl max_retry_reached), w)
      else
        let w1 = w\<lparr>connectionRetryCount := connectionRetryCount w + 1\<rparr>;
            w2 = w1\<lparr>sleeps := sleeps w1 @ [timeout_delay (retryDelay w1) (connectionRetryCount w1)]\<rparr>;
            w3 = w2\<lparr>db := None, isInitialized := False, connectionPromise := None,
                    connectionRetryCount := 0\<rparr>
        in await_initialize w3)"

section \<open>DatabaseManager: transactions\<close>

text \<open>
  \<^verbatim>\<open>db.transaction(storeNames, mode)\<close>: the environment's fault first, then the
  engine's own checks in their order (closed connection, unknown store, empty scope).
\<close>

definition db_transaction ::
  "connection \<Rightarrow> string list \<Rightarrow> tx_mode \<Rightarrow> world \<Rightarrow> (js_error + txn) \<times> world" where
  "db_transaction c names mode w =
     (let w1 = w\<lparr>tx_calls := Suc (tx_calls w)\<rparr>
      in case tx_fault w (tx_calls w) of
           Some e \<Rightarrow> (Inl e, w1)
         | None \<Rightarrow>
             if conn_id c \<in> set (closed_conns w) then (Inl invalid_state_error, w1)
             else if \<not> list_all (\<lambda>n. n \<in> set (objectStoreNames c)) names then (Inl not_found_error, w1)
             else if names = [] then (Inl invalid_access_error, w1)
             else (Inr \<lparr>tx_conn = conn_id c, tx_scope = names, tx_mode = mode,
                        onerror = None, onabort = None, oncomplete = None\<rparr>, w1))"

text \<open>
  The executor of the promise that \<^verbatim>\<open>transaction\<close> returns: it attaches the two
  handlers and calls \<^verbatim>\<open>resolve(transaction)\<close> at once.
\<close>

definition tx_executor :: "txn \<Rightarrow> txn pstate \<times> txn" where
  "tx_executor t =
     (let t1 = t\<lparr>onerror := Some TxRejectError\<rparr>;
          t2 = t1\<lparr>onabort := Some TxRejectAborted\<rparr>
      in (resolve t2 Pending, t2))"

text \<open>\<^verbatim>\<open>if (!this.isInitialized) await this.initialize()\<close>; \<open>Some None\<close> when nothing is thrown.\<close>

definition ensure_initialized :: "world \<Rightarrow> js_error option option \<times> world" where
  "ensure_initialized w =
     (if \<not> isInitialized w then
        (case await_initialize w of
           (None, w1) \<Rightarrow> (None, w1)
         | (Some (Inl e), w1) \<Rightarrow> (Some (Some e), w1)
         | (Some (Inr c), w1) \<Rightarrow> (Some None, w1))
      else (Some None, w))"

text \<open>The \<^verbatim>\<open>try\<close> block of \<^verbatim>\<open>transaction\<close>: an exception, or the promise it returns.\<close>

definition try_block ::
  "string list \<Rightarrow> tx_mode \<Rightarrow> world \<Rightarrow> (js_error + txn pstate) option \<times> world" where
  "try_block names mode w =
     (case ensure_initialized w of
        (None, w1) \<Rightarrow> (None, w1)
      | (Some (Some e), w1) \<Rightarrow> (Some (Inl e), w1)
      | (Some None, w1) \<Rightarrow>
          (case db w1 of
             None \<Rightarrow> (Some (Inl connection_lost), w1)
           | Some c \<Rightarrow>
               (case db_transaction c names mode w1 of
                  (Inl e, w2) \<Rightarrow> (Some (Inl e), w2)
                | (Inr t, w2) \<Rightarrow> (Some (Inr (fst (tx_executor t))), w2))))"

text \<open>The first condition of the \<^verbatim>\<open>catch\<close> block, for an error object.\<close>

definition is_stale :: "js_error \<Rightarrow> bool" where
  "is_stale error =
     (case error of
        JsNull \<Rightarrow> False
      | JsError name message \<Rightarrow>
          name = ''InvalidStateError'' \<or>
          str_includes message ''database connection is closing'' \<or>
          str_includes message ''Database connection lost'')"

text \<open>
  \<^verbatim>\<open>transaction(storeNames, mode)\<close>. The function calls itself after a reconnect with
  no bound of its own, so the model counts the nested calls: \<open>None\<close> is a call that
  has not returned within \<open>fuel\<close> nested calls (or awaits a promise that never
  settles). On a \<^verbatim>\<open>NotFoundError\<close> the second condition of the \<^verbatim>\<open>catch\<close> block calls
  \<^verbatim>\<open>objectStoreNames.includes\<close>, which a \<^verbatim>\<open>DOMStringList\<close> does not have (and
  \<^verbatim>\<open>this.db\<close> may be null), so a \<^verbatim>\<open>TypeError\<close> leaves the block; so it does when
  \<^verbatim>\<open>error.name\<close> is read of \<^verbatim>\<open>null\<close>.
\<close>

fun transaction ::
  "nat \<Rightarrow> string list \<Rightarrow> tx_mode \<Rightarrow> world \<Rightarrow> (js_error + txn) option \<times> world" where
  "transaction fuel names mode w =
     (case try_block names mode w of
        (None, w1) \<Rightarrow> (None, w1)
      | (Some (Inr p), w1) \<Rightarrow> (await p, w1)
      | (Some (Inl error), w1) \<Rightarrow>
          if error = JsNull then (Some (Inl type_error), w1)
          else if is_stale error then
            (case retryConnection w1 of
               (None, w2) \<Rightarrow> (None, w2)
             | (Some (Inl e), w2) \<Rightarrow> (Some (Inl e), w2)
             | (Some (Inr c), w2) \<Rightarrow>
                 (case fuel of
                    0 \<Rightarrow> (None, w2)
                  | Suc n \<Rightarrow> transaction n names mode w2))
          else if err_name error = ''NotFoundError'' then (Some (Inl type_error), w1)
          else (Some (Inl error), w1))"

declare transaction.simps [simp del]

section \<open>DatabaseManager: reading and writing a record\<close>

text \<open>
  What \<^verbatim>\<open>getStoreValue\<close> and \<^verbatim>\<open>setStoreValue\<close> leave in flight once their request is
  made: the transaction with its handler slots, its \<^verbatim>\<open>error\<close> (\<open>None\<close> for null) and
  whether it has finished; the promise that \<^verbatim>\<open>transaction\<close> returned; the request,
  whether it is done, its result, \<^verbatim>\<open>error\<close> and handlers; and the promise of the
  operation itself.
\<close>

record 'a flight =
  fl_tx :: txn
  fl_tx_promise :: "txn pstate"
  fl_tx_error :: "js_error option"
  fl_finished :: bool
  fl_done :: bool
  fl_result :: 'a
  fl_error :: "js_error option"
  fl_onsuccess :: "callback option"
  fl_onerror :: "callback option"
  fl_promise :: "'a pstate"

text \<open>
  What the engine can do to the one request of such a transaction and to the
  transaction: serve the request, fail it, abort the transaction (\<open>None\<close>: by a call
  of \<^verbatim>\<open>abort()\<close>; \<open>Some e\<close>: for the error \<open>e\<close>, as when the commit fails), or
  complete it.
\<close>

datatype 'a idb_event =
    RequestSuccess 'a
  | RequestError js_error
  | TransactionAbort "js_error option"
  | TransactionComplete

text \<open>The value of a nullable \<^verbatim>\<open>error\<close> attribute.\<close>

definition nullable :: "js_error option \<Rightarrow> js_error" where
  "nullable e = (case e of None \<Rightarrow> JsNull | Some x \<Rightarrow> x)"

text \<open>
  Running a handler, which reads \<^verbatim>\<open>request.result\<close>, \<^verbatim>\<open>request.error\<close> and
  \<^verbatim>\<open>transaction.error\<close> as they are at the time of the event. The request that a
  write resolves with is represented by its result.
\<close>

definition run_callback :: "callback option \<Rightarrow> 'a flight \<Rightarrow> 'a flight" where
  "run_callback cb fl =
     (case cb of
        None \<Rightarrow> fl
      | Some TxRejectError \<Rightarrow>
          fl\<lparr>fl_tx_promise := reject (nullable (fl_tx_error fl)) (fl_tx_promise fl)\<rparr>
      | Some TxRejectAborted \<Rightarrow>
          fl\<lparr>fl_tx_promise := reject transaction_aborted (fl_tx_promise fl)\<rparr>
      | Some GetResolveResult \<Rightarrow> fl\<lparr>fl_promise := resolve (fl_result fl) (fl_promise fl)\<rparr>
      | Some GetRejectError \<Rightarrow> fl\<lparr>fl_promise := reject (nullable (fl_error fl)) (fl_promise fl)\<rparr>
      | Some SetResolveRequest \<Rightarrow> fl\<lparr>fl_promise := resolve (fl_result fl) (fl_promise fl)\<rparr>
      | Some SetRejectError \<Rightarrow>
          fl\<lparr>fl_promise := reject (nullable (fl_tx_error fl)) (fl_promise fl)\<rparr>)"

text \<open>
  An \<^verbatim>\<open>error\<close> event at the request: the request's handler runs, then the event
  bubbles to the handler of the transaction.
\<close>

definition error_at_request :: "'a flight \<Rightarrow> 'a flight" where
  "error_at_request fl =
     (let fl1 = run_callback (fl_onerror fl) fl
      in run_callback (onerror (fl_tx fl1)) fl1)"

text \<open>
  The engine's steps, after the storage standard. A success is dispatched to the
  request. A failed request gets an \<^verbatim>\<open>error\<close> event while \<^verbatim>\<open>transaction.error\<close> is
  still unset; no handler of the source cancels it, so the transaction is then aborted
  with the request's error and gets an \<^verbatim>\<open>abort\<close> event. An abort sets
  \<^verbatim>\<open>transaction.error\<close> (unless it is null), fails the request, if it is still
  pending, with an \<^verbatim>\<open>AbortError\<close> through an \<^verbatim>\<open>error\<close> event, and then dispatches
  \<^verbatim>\<open>abort\<close> to the transaction. A transaction completes once its request is done.
  A step that cannot occur in the state (the request is done already, the
  transaction has finished) changes nothing.
\<close>

definition fire :: "'a idb_event \<Rightarrow> 'a flight \<Rightarrow> 'a flight" where
  "fire ev fl =
     (case ev of
        RequestSuccess r \<Rightarrow>
          if fl_finished fl \<or> fl_done fl then fl
          else run_callback (fl_onsuccess fl) (fl\<lparr>fl_done := True, fl_result := r\<rparr>)
      | RequestError e \<Rightarrow>
          if fl_finished fl \<or> fl_done fl then fl
          else
            let fl1 = error_at_request (fl\<lparr>fl_done := True, fl_error := Some e\<rparr>);
                fl2 = fl1\<lparr>fl_finished := True, fl_tx_error := Some e\<rparr>
            in run_callback (onabort (fl_tx fl2)) fl2
      | TransactionAbort eo \<Rightarrow>
          if fl_finished fl then fl
          else
            let fl1 = fl\<lparr>fl_finished := True,
                        fl_tx_error := (case eo of None \<Rightarrow> fl_tx_error fl | Some e \<Rightarrow> Some e)\<rparr>;
                fl2 = (if fl_done fl1 then fl1
                       else error_at_request (fl1\<lparr>fl_done := True, fl_error := Some abort_error\<rparr>))
            in run_callback (onabort (fl_tx fl2)) fl2
      | TransactionComplete \<Rightarrow>
          if fl_finished fl \<or> \<not> fl_done fl then fl
          else run_callback (oncomplete (fl_tx fl)) (fl\<lparr>fl_finished := True\<rparr>))"

fun fire_all :: "'a idb_event list \<Rightarrow> 'a flight \<Rightarrow> 'a flight" where
  "fire_all [] fl = fl"
| "fire_all (ev # evs) fl = fire_all evs (fire ev fl)"

text \<open>\<^verbatim>\<open>transaction.objectStore(storeName)\<close>\<close>

definition objectStore :: "txn \<Rightarrow> string \<Rightarrow> world \<Rightarrow> js_error + obj_store" where
  "objectStore t storeName w =
     (if storeName \<notin> set (tx_scope t) then Inl not_found_error
      else case map_of (idb_stores w) storeName of
             None \<Rightarrow> Inl not_found_error
           | Some st \<Rightarrow> Inr st)"

text \<open>
  The executor of \<^verbatim>\<open>getStoreValue\<close>, after \<^verbatim>\<open>store.get(key)\<close>: the request's two
  handlers are attached, the transaction keeps the handlers of \<^verbatim>\<open>transaction\<close>.
\<close>

definition get_executor :: "txn \<Rightarrow> pref_record option flight" where
  "get_executor t =
     \<lparr>fl_tx = t, fl_tx_promise = Fulfilled t, fl_tx_error = None, fl_finished = False,
      fl_done = False, fl_result = None, fl_error = None,
      fl_onsuccess = Some GetResolveResult, fl_onerror = Some GetRejectError,
      fl_promise = Pending\<rparr>"

text \<open>
  The executor of \<^verbatim>\<open>setStoreValue\<close>, after \<^verbatim>\<open>store.put(value)\<close>: \<^verbatim>\<open>oncomplete\<close> is
  set and \<^verbatim>\<open>onerror\<close> replaced on the transaction, the request gets no handler.
\<close>

definition set_executor :: "txn \<Rightarrow> string option flight" where
  "set_executor t =
     (let t1 = t\<lparr>oncomplete := Some SetResolveRequest\<rparr>;
          t2 = t1\<lparr>onerror := Some SetRejectError\<rparr>
      in \<lparr>fl_tx = t2, fl_tx_promise = Fulfilled t, fl_tx_error = None, fl_finished = False,
          fl_done = False, fl_result = None, fl_error = None,
          fl_onsuccess = None, fl_onerror = None, fl_promise = Pending\<rparr>)"

text \<open>
  \<^verbatim>\<open>store.put(value)\<close>: the record is cloned, then the key is read at the store's key
  path, and a record \<^verbatim>\<open>{ username, value }\<close> has a valid key at \<^verbatim>\<open>username\<close> only.
\<close>

definition store_put :: "txn \<Rightarrow> obj_store \<Rightarrow> pref_record \<Rightarrow> js_error + obj_store" where
  "store_put t st r =
     (if tx_mode t = Readonly then Inl read_only_error
      else if \<not> cloneable (JObject (rec_value r)) then Inl data_clone_error
      else if keyPath st \<noteq> ''username'' then Inl data_error
      else Inr (st\<lparr>records := (records st)(rec_username r \<mapsto> r)\<rparr>))"

text \<open>
  \<^verbatim>\<open>getStoreValue(storeName, key)\<close>, with the events of a request the engine serves:
  the request succeeds, then the transaction completes.
\<close>

definition getStoreValue ::
  "nat \<Rightarrow> string \<Rightarrow> string \<Rightarrow> world \<Rightarrow> (js_error + pref_record option) option \<times> world" where
  "getStoreValue fuel storeName key w =
     (case ensure_initialized w of
        (None, w1) \<Rightarrow> (None, w1)
      | (Some (Some e), w1) \<Rightarrow> (Some (Inl e), w1)
      | (Some None, w1) \<Rightarrow>
          (case transaction fuel [storeName] Readonly w1 of
             (None, w2) \<Rightarrow> (None, w2)
           | (Some (Inl e), w2) \<Rightarrow> (Some (Inl e), w2)
           | (Some (Inr t), w2) \<Rightarrow>
               (case objectStore t storeName w2 of
                  Inl e \<Rightarrow> (Some (Inl e), w2)
                | Inr st \<Rightarrow>
                    let fl = fire_all [RequestSuccess (records st key), TransactionComplete]
                               (get_executor t)
                    in (await (fl_promise fl), w2))))"

text \<open>
  \<^verbatim>\<open>setStoreValue(storeName, value)\<close>; an exception of \<^verbatim>\<open>store.put\<close> inside the
  executor rejects the promise.
\<close>

definition setStoreValue ::
  "nat \<Rightarrow> string \<Rightarrow> pref_record \<Rightarrow> world \<Rightarrow> (js_error + string option) option \<times> world" where
  "setStoreValue fuel storeName r w =
     (case ensure_initialized w of
        (None, w1) \<Rightarrow> (None, w1)
      | (Some (Some e), w1) \<Rightarrow> (Some (Inl e), w1)
      | (Some None, w1) \<Rightarrow>
          (case transaction fuel [storeName] Readwrite w1 of
             (None, w2) \<Rightarrow> (None, w2)
           | (Some (Inl e), w2) \<Rightarrow> (Some (Inl e), w2)
           | (Some (Inr t), w2) \<Rightarrow>
               (case objectStore t storeName w2 of
                  Inl e \<Rightarrow> (Some (Inl e), w2)
                | Inr st \<Rightarrow>
                    (case store_put t st r of
                       Inl e \<Rightarrow> (await (reject e Pending), w2)
                     | Inr st' \<Rightarrow>
                         let w3 = w2\<lparr>idb_stores := AList.update storeName st' (idb_stores w2)\<rparr>;
                             fl = fire_all [RequestSuccess (Some (rec_username r)), TransactionComplete]
                                    (set_executor t)
                         in (await (fl_promise fl), w3)))))"

section \<open>UserPreferencesStoreManager: operations\<close>

definition STORE_NAME :: string where
  "STORE_NAME = ''userPreferences''"

definition sm_initialize :: "store_manager \<Rightarrow> world \<Rightarrow> js_error option option \<times> store_manager \<times> world" where
  "sm_initialize m w =
     (if sm_isInitialized m then (Some None, m, w)
      else
        case await_initialize w of
          (None, w1) \<Rightarrow> (None, m, w1)
        | (Some (Inl e), w1) \<Rightarrow> (Some (Some e), m, w1)
        | (Some (Inr _), w1) \<Rightarrow>
            (case db w1 of
               None \<Rightarrow> (Some (Some type_error), m, w1)
             | Some c \<Rightarrow>
                 if STORE_NAME \<notin> set (objectStoreNames c) then
                   (case createObjectStore STORE_NAME ''username'' w1 of
                      (Inl e, w2) \<Rightarrow> (Some (Some e), m, w2)
                    | (Inr _, w2) \<Rightarrow> (Some None, m\<lparr>sm_isInitialized := True\<rparr>, w2))
                 else (Some None, m\<lparr>sm_isInitialized := True\<rparr>, w1)))"

text \<open>\<^verbatim>\<open>get(key)\<close>: \<^verbatim>\<open>userPreferences?.value?.[key] ?? null\<close> on the record read.\<close>

definition sm_get ::
  "nat \<Rightarrow> string \<Rightarrow> store_manager \<Rightarrow> world \<Rightarrow> (js_error + jsval) option \<times> store_manager \<times> world" where
  "sm_get fuel key m w =
     (case sm_initialize m w of
        (None, m1, w1) \<Rightarrow> (None, m1, w1)
      | (Some (Some e), m1, w1) \<Rightarrow> (Some (Inl e), m1, w1)
      | (Some None, m1, w1) \<Rightarrow>
          (case getStoreValue fuel STORE_NAME (username m1) w1 of
             (None, w2) \<Rightarrow> (None, m1, w2)
           | (Some (Inl e), w2) \<Rightarrow> (Some (Inl e), m1, w2)
           | (Some (Inr userPreferences), w2) \<Rightarrow>
               (case userPreferences of
                  None \<Rightarrow> (Some (Inr JNull), m1, w2)
                | Some r \<Rightarrow> (Some (Inr (or_null (get_property (rec_value r) key))), m1, w2))))"

text \<open>\<^verbatim>\<open>set(value)\<close>: the record \<^verbatim>\<open>{ username: this.username, value }\<close> is put.\<close>

definition sm_set ::
  "nat \<Rightarrow> prefs \<Rightarrow> store_manager \<Rightarrow> world \<Rightarrow> (js_error + string option) option \<times> store_manager \<times> world" where
  "sm_set fuel v m w =
     (case sm_initialize m w of
        (None, m1, w1) \<Rightarrow> (None, m1, w1)
      | (Some (Some e), m1, w1) \<Rightarrow> (Some (Inl e), m1, w1)
      | (Some None, m1, w1) \<Rightarrow>
          (case setStoreValue fuel STORE_NAME \<lparr>rec_username = username m1, rec_value = v\<rparr> w1 of
             (r, w2) \<Rightarrow> (r, m1, w2)))"

section \<open>Vocabulary of the properties\<close>

text \<open>
  A healthy tab: the manager is connected through a promise that was fulfilled, its
  connection is open and knows the preferences store, the store is keyed by
  \<^verbatim>\<open>username\<close>, and the environment injects no fault into \<^verbatim>\<open>db.transaction\<close>.
\<close>

definition ready :: "world \<Rightarrow> bool" where
  "ready w =
     (isInitialized w \<and> (\<forall>i. tx_fault w i = None) \<and>
      (case connectionPromise w of
         None \<Rightarrow> False
       | Some p \<Rightarrow> (case promises w p of Fulfilled _ \<Rightarrow> True | _ \<Rightarrow> False)) \<and>
      (case db w of
         None \<Rightarrow> False
       | Some c \<Rightarrow> conn_id c \<notin> set (closed_conns w) \<and> STORE_NAME \<in> set (objectStoreNames c)) \<and>
      (case map_of (idb_stores w) STORE_NAME of
         None \<Rightarrow> False
       | Some st \<Rightarrow> keyPath st = ''username''))"

definition the_store :: "world \<Rightarrow> obj_store" where
  "the_store w =
     (case map_of (idb_stores w) STORE_NAME of
        Some st \<Rightarrow> st
      | None \<Rightarrow> \<lparr>keyPath = ''username'', records = Map.empty\<rparr>)"

text \<open>A call of \<^verbatim>\<open>set\<close> or \<^verbatim>\<open>get\<close> on a manager and the tab it runs in.\<close>

definition run_set :: "nat \<Rightarrow> prefs \<Rightarrow> store_manager \<times> world \<Rightarrow> store_manager \<times> world" where
  "run_set fuel v mw = snd (sm_set fuel v (fst mw) (snd mw))"

definition set_result ::
  "nat \<Rightarrow> prefs \<Rightarrow> store_manager \<times> world \<Rightarrow> (js_error + string option) option" where
  "set_result fuel v mw = fst (sm_set fuel v (fst mw) (snd mw))"

definition run_get :: "nat \<Rightarrow> string \<Rightarrow> store_manager \<times> world \<Rightarrow> (js_error + jsval) option" where
  "run_get fuel key mw = fst (sm_get fuel key (fst mw) (snd mw))"

text \<open>The first run of the application: the owner \<^verbatim>\<open>DEFAULT\<close> initialises its store.\<close>

definition started :: "store_manager \<times> world" where
  "started = snd (sm_initialize \<lparr>username = ''DEFAULT'', sm_isInitialized = False\<rparr>
                   (new_manager (\<lambda>_. False) (\<lambda>_. None)))"

text \<open>
  An environment in which every call of \<^verbatim>\<open>db.transaction\<close> throws an error that the
  \<^verbatim>\<open>catch\<close> block takes for a stale connection, while every open request succeeds;
  and a connected tab in such an environment.
\<close>

definition stale_env :: "world \<Rightarrow> bool" where
  "stale_env w =
     ((\<forall>i. case tx_fault w i of None \<Rightarrow> False | Some e \<Rightarrow> is_stale e) \<and>
      (\<forall>p. \<not> open_fault w p))"

definition stale_world :: world where
  "stale_world = snd (await_initialize (new_manager (\<lambda>_. False) (\<lambda>_. Some invalid_state_error)))"

text \<open>\<open>n\<close> calls of \<^verbatim>\<open>initialize\<close> made before the browser settles any request.\<close>

fun initialize_n :: "nat \<Rightarrow> world \<Rightarrow> nat list \<times> world" where
  "initialize_n 0 w = ([], w)"
| "initialize_n (Suc n) w =
     (case initialize w of
        (p, w1) \<Rightarrow> (case initialize_n n w1 of (ps, w2) \<Rightarrow> (p # ps, w2)))"

text \<open>The handler slots as \<^verbatim>\<open>setStoreValue\<close> leaves them.\<close>

definition set_handlers :: "'a flight \<Rightarrow> bool" where
  "set_handlers fl =
     (oncomplete (fl_tx fl) = Some SetResolveRequest \<and>
      onerror (fl_tx fl) = Some SetRejectError \<and>
      onabort (fl_tx fl) = Some TxRejectAborted \<and>
      fl_onsuccess fl = None \<and> fl_onerror fl = None)"







text \<open>A transaction as \<^verbatim>\<open>transaction\<close> hands it to its caller.\<close>

definition sample_tx :: txn where
  "sample_tx =
     snd (tx_executor \<lparr>tx_conn = 0, tx_scope = [STORE_NAME], tx_mode = Readwrite,
                      onerror = None, onabort = None, oncomplete = None\<rparr>)"

section \<open>Construction of a store manager\<close>

lemma sm_constructor_falsy: "falsy u \<Longrightarrow> sm_constructor u = Inl username_required"
  by (simp add: falsy_def sm_constructor_def split: option.splits)

lemma sm_constructor_username:
  "sm_constructor u = Inr m \<Longrightarrow> username m \<noteq> [] \<and> u = Some (username m)"
  by (auto simp: sm_constructor_def split: option.splits if_splits)

text \<open>
  C10. Constructing a store manager with a falsy (absent or empty) owner identifier
  throws 'Username is required', and so does obtaining one through getInstance,
  which then leaves the static slot as it was; a manager that the constructor or
  getInstance does return carries a non-empty owner key, and the static slot goes on
  holding only such managers.
\<close>

theorem username_is_required:
  "(falsy u \<longrightarrow> sm_constructor u = Inl username_required) \<and>
   (sm_constructor u = Inr m \<longrightarrow> username m \<noteq> []) \<and>
   (live_ok inst \<longrightarrow>
      (falsy u \<longrightarrow> sm_getInstance u inst = (Inl username_required, inst)) \<and>
      (fst (sm_getInstance u inst) = Inr m' \<longrightarrow> username m' \<noteq> []) \<and>
      live_ok (snd (sm_getInstance u inst)))"
proof (intro conjI impI)
  show "sm_constructor u = Inl username_required" if "falsy u"
    using that by (rule sm_constructor_falsy)
  show "username m \<noteq> []" if "sm_constructor u = Inr m"
    using that sm_constructor_username by blast
  show "sm_getInstance u inst = (Inl username_required, inst)" if "live_ok inst" "falsy u"
  proof (cases inst)
    case None
    then show ?thesis
      by (simp add: sm_getInstance_def sm_constructor_falsy[OF that(2)])
  next
    case (Some i)
    with that have "Some (username i) \<noteq> u"
      by (auto simp: live_ok_def falsy_def)
    with Some show ?thesis
      by (simp add: sm_getInstance_def sm_constructor_falsy[OF that(2)])
  qed
  show "username m' \<noteq> []" if "live_ok inst" "fst (sm_getInstance u inst) = Inr m'"
    using that sm_constructor_username[of u]
    by (auto simp: sm_getInstance_def live_ok_def split: option.splits sum.splits if_splits)
  show "live_ok (snd (sm_getInstance u inst))" if "live_ok inst"
    using that sm_constructor_username[of u]
    by (auto simp: sm_getInstance_def live_ok_def split: option.splits sum.splits if_splits)
qed

theorem username_is_required_witness:
  "sm_constructor (Some '''') = Inl username_required \<and>
   sm_constructor None = Inl username_required \<and>
   sm_getInstance (Some '''') (Some \<lparr>username = ''DEFAULT'', sm_isInitialized = True\<rparr>) =
     (Inl username_required, Some \<lparr>username = ''DEFAULT'', sm_isInitialized = True\<rparr>) \<and>
   fst (sm_getInstance (Some ''DEFAULT'') None) = Inr \<lparr>username = ''DEFAULT'', sm_isInitialized = False\<rparr> \<and>
   live_ok (snd (sm_getInstance (Some ''DEFAULT'') None))"
  using username_is_required[of "Some ''''" undefined "Some \<lparr>username = ''DEFAULT'', sm_isInitialized = True\<rparr>" undefined]
    username_is_required[of None undefined None undefined]
    username_is_required[of "Some ''DEFAULT''" "\<lparr>username = ''DEFAULT'', sm_isInitialized = False\<rparr>" None
      "\<lparr>username = ''DEFAULT'', sm_isInitialized = False\<rparr>"]
  by (simp add: falsy_def live_ok_def sm_constructor_def sm_getInstance_def)

section \<open>Reading and writing in a healthy tab\<close>

lemma ready_transaction:
  assumes "ready w"
  shows "transaction fuel [STORE_NAME] mode w =
     (Some (Inr \<lparr>tx_conn = conn_id (the (db w)), tx_scope = [STORE_NAME], tx_mode = mode,
                 onerror = Some TxRejectError, onabort = Some TxRejectAborted, oncomplete = None\<rparr>),
      w\<lparr>tx_calls := Suc (tx_calls w)\<rparr>)"
  using assms
  by (subst transaction.simps)
    (auto simp: ready_def try_block_def ensure_initialized_def db_transaction_def
      tx_executor_def resolve_def await_def Let_def split: option.splits)

lemma ready_sm_initialize:
  assumes "ready w"
  shows "sm_initialize m w = (Some None, m\<lparr>sm_isInitialized := True\<rparr>, w)"
  using assms
  by (auto simp: ready_def sm_initialize_def await_initialize_def initialize_def await_def
      split: option.splits pstate.splits)

lemma ready_setStoreValue:
  assumes "ready w" "cloneable (JObject (rec_value r))"
  shows "setStoreValue fuel STORE_NAME r w =
     (Some (Inr (Some (rec_username r))),
      w\<lparr>tx_calls := Suc (tx_calls w),
        idb_stores := AList.update STORE_NAME
           ((the_store w)\<lparr>records := (records (the_store w))(rec_username r \<mapsto> r)\<rparr>) (idb_stores w)\<rparr>)"
  using assms
  apply (simp add: setStoreValue_def ensure_initialized_def ready_transaction)
  apply (auto simp: ready_def objectStore_def store_put_def set_executor_def fire_def run_callback_def
      resolve_def await_def the_store_def Let_def split: option.splits)
  done

lemma ready_setStoreValue_refused:
  assumes "ready w" "\<not> cloneable (JObject (rec_value r))"
  shows "setStoreValue fuel STORE_NAME r w =
     (Some (Inl data_clone_error), w\<lparr>tx_calls := Suc (tx_calls w)\<rparr>)"
  using assms
  apply (simp add: setStoreValue_def ensure_initialized_def ready_transaction)
  apply (auto simp: ready_def objectStore_def store_put_def reject_def await_def
      split: option.splits)
  done

lemma ready_getStoreValue:
  assumes "ready w"
  shows "getStoreValue fuel STORE_NAME key w =
     (Some (Inr (records (the_store w) key)), w\<lparr>tx_calls := Suc (tx_calls w)\<rparr>)"
  using assms
  apply (simp add: getStoreValue_def ensure_initialized_def ready_transaction)
  apply (auto simp: ready_def objectStore_def get_executor_def fire_def run_callback_def
      resolve_def await_def the_store_def Let_def split: option.splits)
  done

lemma ready_run_set:
  assumes "ready w" "cloneable (JObject v)"
  shows "run_set fuel v (m, w) =
     (m\<lparr>sm_isInitialized := True\<rparr>,
      w\<lparr>tx_calls := Suc (tx_calls w),
        idb_stores := AList.update STORE_NAME
           ((the_store w)\<lparr>records := (records (the_store w))
               (username m \<mapsto> \<lparr>rec_username = username m, rec_value = v\<rparr>)\<rparr>) (idb_stores w)\<rparr>)"
  using assms by (simp add: run_set_def sm_set_def ready_sm_initialize ready_setStoreValue)

lemma ready_run_set_refused:
  assumes "ready w" "\<not> cloneable (JObject v)"
  shows "run_set fuel v (m, w) = (m\<lparr>sm_isInitialized := True\<rparr>, w\<lparr>tx_calls := Suc (tx_calls w)\<rparr>)"
    and "set_result fuel v (m, w) = Some (Inl data_clone_error)"
  using assms
  by (simp_all add: run_set_def set_result_def sm_set_def ready_sm_initialize ready_setStoreValue_refused)

lemma ready_run_get:
  assumes "ready w"
  shows "run_get fuel key (m, w) =
     Some (Inr (case records (the_store w) (username m) of
                  None \<Rightarrow> JNull
                | Some r \<Rightarrow> or_null (get_property (rec_value r) key)))"
  using assms
  by (simp add: run_get_def sm_get_def ready_sm_initialize ready_getStoreValue split: option.splits)

lemma ready_tx_calls: "ready w \<Longrightarrow> ready (w\<lparr>tx_calls := n\<rparr>)"
  by (auto simp: ready_def split: option.splits)

lemma ready_after_set:
  assumes "ready (snd mw)"
  shows "ready (snd (run_set fuel v mw))"
proof (cases "cloneable (JObject v)")
  case True
  with assms show ?thesis
    by (cases mw) (auto simp: ready_run_set ready_def update_conv' the_store_def split: option.splits)
next
  case False
  with assms show ?thesis
    by (cases mw) (simp add: ready_run_set_refused ready_tx_calls)
qed

lemma store_after_set:
  assumes "ready (snd mw)" "cloneable (JObject v)"
  shows "records (the_store (snd (run_set fuel v mw))) =
         (records (the_store (snd mw)))
           (username (fst mw) \<mapsto> \<lparr>rec_username = username (fst mw), rec_value = v\<rparr>)"
  using assms
  by (cases mw) (simp add: ready_run_set the_store_def update_conv')

lemma store_after_refused_set:
  assumes "ready (snd mw)" "\<not> cloneable (JObject v)"
  shows "records (the_store (snd (run_set fuel v mw))) = records (the_store (snd mw))"
  using assms
  by (cases mw) (simp add: ready_run_set_refused the_store_def)

lemma username_after_set:
  assumes "ready (snd mw)"
  shows "username (fst (run_set fuel v mw)) = username (fst mw)"
  using assms
  by (cases mw; cases "cloneable (JObject v)") (simp_all add: ready_run_set ready_run_set_refused)

lemma get_in_ready:
  assumes "ready (snd mw)"
  shows "run_get fuel key mw =
     Some (Inr (case records (the_store (snd mw)) (username (fst mw)) of
                  None \<Rightarrow> JNull
                | Some r \<Rightarrow> or_null (get_property (rec_value r) key)))"
  using assms by (cases mw) (simp add: ready_run_get)

lemma set_get:
  assumes "ready (snd mw)" "cloneable (JObject v)"
  shows "run_get f2 k (run_set f1 v mw) = Some (Inr (or_null (get_property v k)))"
  using get_in_ready[OF ready_after_set[OF assms(1)], of f2 k f1 v]
  by (simp add: store_after_set[OF assms] username_after_set[OF assms(1)])

lemma refused_set_get:
  assumes "ready (snd mw)" "\<not> cloneable (JObject v)"
  shows "run_get f2 k (run_set f1 v mw) = run_get f3 k mw"
  using get_in_ready[OF ready_after_set[OF assms(1)], of f2 k f1 v] get_in_ready[OF assms(1), of f3 k]
  by (simp add: store_after_refused_set[OF assms] username_after_set[OF assms(1)])

lemma refused_set_result:
  assumes "ready (snd mw)" "\<not> cloneable (JObject v)"
  shows "set_result fuel v mw = Some (Inl data_clone_error)"
  using assms by (cases mw) (simp add: ready_run_set_refused)

lemma absent_not_inherited:
  "map_of m k = None \<Longrightarrow> k \<notin> set inherited_names \<Longrightarrow> or_null (get_property m k) = JNull"
  by (simp add: get_property_def object_prototype_def inherited_names_def or_null_def)

lemma or_null_defined: "v \<noteq> JUndefined \<Longrightarrow> or_null v = v"
  by (cases v) (simp_all add: or_null_def)

lemma started_ready: "ready (snd started)"
  by (simp add: started_def sm_initialize_def await_initialize_def initialize_def new_manager_def
      complete_open_def idb_open_def request_onsuccess_def resolve_def await_def createObjectStore_def
      close_conn_def ready_def STORE_NAME_def Let_def)


lemma started_empty: "records (the_store (snd started)) = Map.empty"
  by (simp add: started_def sm_initialize_def await_initialize_def initialize_def new_manager_def
      complete_open_def idb_open_def request_onsuccess_def resolve_def await_def createObjectStore_def
      close_conn_def the_store_def STORE_NAME_def Let_def)

section \<open>Writing replaces the owner's record\<close>

text \<open>
  C2, as the specification states it, fails: after \<^verbatim>\<open>set({a: 1})\<close> and
  \<^verbatim>\<open>set({b: 2})\<close> in the first run of the application, \<^verbatim>\<open>get('a')\<close> returns null
  and not 1.
\<close>

theorem set_does_not_merge:
  "run_get 0 ''a'' (run_set 0 [(''b'', JNum 2)] (run_set 0 [(''a'', JNum 1)] started))
     = Some (Inr JNull) \<and>
   run_get 0 ''a'' (run_set 0 [(''b'', JNum 2)] (run_set 0 [(''a'', JNum 1)] started))
     \<noteq> Some (Inr (JNum 1))"
  using set_get[OF ready_after_set[OF started_ready], of "[(''b'', JNum 2)]" 0 "''a''" 0 0 "[(''a'', JNum 1)]"]
  by (simp add: get_property_def object_prototype_def inherited_functions_def or_null_def)

text \<open>
  C2, amended. In a healthy tab, \<^verbatim>\<open>set(m1)\<close> followed by \<^verbatim>\<open>set(m2)\<close>, with \<open>m2\<close> a
  map that can be cloned, replaces the owner's record by \<open>m2\<close>: a following
  \<^verbatim>\<open>get(k)\<close> returns what reading \<open>k\<close> of \<open>m2\<close> gives (null for undefined), and so
  null for every key that is absent from \<open>m2\<close> and is not a name inherited from the
  object prototype, whether or not \<open>m1\<close> had it. When \<open>m2\<close> holds a value that cannot
  be cloned, the second \<^verbatim>\<open>set\<close> fails with a \<^verbatim>\<open>DataCloneError\<close> and \<^verbatim>\<open>get(k)\<close>
  returns what it returned before it.
\<close>

theorem set_replaces_record:
  assumes "ready (snd mw)"
  shows "(cloneable (JObject m2) \<longrightarrow>
            run_get f3 k (run_set f2 m2 (run_set f1 m1 mw))
              = Some (Inr (or_null (get_property m2 k)))) \<and>
         (cloneable (JObject m2) \<and> map_of m2 k = None \<and> k \<notin> set inherited_names \<longrightarrow>
            run_get f3 k (run_set f2 m2 (run_set f1 m1 mw)) = Some (Inr JNull)) \<and>
         (\<not> cloneable (JObject m2) \<longrightarrow>
            set_result f2 m2 (run_set f1 m1 mw) = Some (Inl data_clone_error) \<and>
            run_get f3 k (run_set f2 m2 (run_set f1 m1 mw)) = run_get f3 k (run_set f1 m1 mw))"
proof (intro conjI impI)
  note r = ready_after_set[OF assms, of f1 m1]
  show "run_get f3 k (run_set f2 m2 (run_set f1 m1 mw)) = Some (Inr (or_null (get_property m2 k)))"
    if "cloneable (JObject m2)"
    using set_get[OF r that] by simp
  show "run_get f3 k (run_set f2 m2 (run_set f1 m1 mw)) = Some (Inr JNull)"
    if "cloneable (JObject m2) \<and> map_of m2 k = None \<and> k \<notin> set inherited_names"
    using set_get[OF r, of m2 f3 k f2] that by (simp add: absent_not_inherited)
  show "set_result f2 m2 (run_set f1 m1 mw) = Some (Inl data_clone_error)"
    if "\<not> cloneable (JObject m2)"
    using refused_set_result[OF r that] by simp
  show "run_get f3 k (run_set f2 m2 (run_set f1 m1 mw)) = run_get f3 k (run_set f1 m1 mw)"
    if "\<not> cloneable (JObject m2)"
    using refused_set_get[OF r that] by simp
qed

theorem set_replaces_record_witness:
  "ready (snd started) \<and> cloneable (JObject [(''b'', JNum 2)]) \<and>
   map_of [(''b'', JNum 2)] ''a'' = None \<and> ''a'' \<notin> set inherited_names \<and>
   run_get 0 ''b'' (run_set 0 [(''b'', JNum 2)] (run_set 0 [(''a'', JNum 1)] started))
     = Some (Inr (JNum 2)) \<and>
   run_get 1 ''a'' (run_set 0 [(''b'', JNum 2)] (run_set 0 [(''a'', JNum 1)] started))
     = Some (Inr JNull) \<and>
   \<not> cloneable (JObject [(''b'', JFunction ''f'')]) \<and>
   run_get 0 ''a'' (run_set 0 [(''b'', JFunction ''f'')] (run_set 0 [(''a'', JNum 1)] started))
     = Some (Inr (JNum 1))"
proof -
  have a: "run_get 0 ''a'' (run_set 0 [(''a'', JNum 1)] started) = Some (Inr (JNum 1))"
    using set_get[OF started_ready, of "[(''a'', JNum 1)]" 0 "''a''" 0]
    by (simp add: get_property_def or_null_def)
  show ?thesis
    using set_replaces_record[OF started_ready, of "[(''b'', JNum 2)]" 0 "''b''" 0 0 "[(''a'', JNum 1)]"]
      set_replaces_record[OF started_ready, of "[(''b'', JNum 2)]" 1 "''a''" 0 0 "[(''a'', JNum 1)]"]
      set_replaces_record[OF started_ready, of "[(''b'', JFunction ''f'')]" 0 "''a''" 0 0 "[(''a'', JNum 1)]"]
      started_ready a
    by (simp add: get_property_def object_prototype_def or_null_def inherited_names_def
        inherited_functions_def)
qed

section \<open>Round trip\<close>

text \<open>
  C4, as the specification states it, fails twice. After \<^verbatim>\<open>set({k: undefined})\<close>,
  \<^verbatim>\<open>get('k')\<close> returns null, which is not the value written. And after
  \<^verbatim>\<open>set({a: 1})\<close> the key \<^verbatim>\<open>toString\<close> is unset, yet \<^verbatim>\<open>get('toString')\<close> returns the
  function of that name that the record's map inherits, not null.
\<close>

theorem undefined_reads_as_null:
  "run_get 0 ''k'' (run_set 0 [(''k'', JUndefined)] started) = Some (Inr JNull) \<and>
   run_get 0 ''k'' (run_set 0 [(''k'', JUndefined)] started) \<noteq> Some (Inr JUndefined) \<and>
   map_of [(''a'', JNum 1)] ''toString'' = None \<and>
   run_get 0 ''toString'' (run_set 0 [(''a'', JNum 1)] started)
     = Some (Inr (JFunction ''toString'')) \<and>
   run_get 0 ''toString'' (run_set 0 [(''a'', JNum 1)] started) \<noteq> Some (Inr JNull)"
  using set_get[OF started_ready, of "[(''k'', JUndefined)]" 0 "''k''" 0]
    set_get[OF started_ready, of "[(''a'', JNum 1)]" 0 "''toString''" 0]
  by (simp add: get_property_def object_prototype_def inherited_functions_def or_null_def)

text \<open>
  C4, amended. In a healthy tab, \<^verbatim>\<open>set({k: v})\<close> followed by \<^verbatim>\<open>get(k)\<close> returns \<open>v\<close>
  for every value \<open>v\<close> that can be cloned other than \<^verbatim>\<open>undefined\<close>, and null for
  \<^verbatim>\<open>undefined\<close>; for a value that cannot be cloned \<^verbatim>\<open>set\<close> fails with a
  \<^verbatim>\<open>DataCloneError\<close> and leaves what \<^verbatim>\<open>get\<close> returns as it was. \<^verbatim>\<open>get(k)\<close> returns
  null for every key when the owner has no record, and for every key that the
  record's map does not have and that is not a name inherited from the object
  prototype; and \<^verbatim>\<open>get\<close> returns a value, never an error, for every key.
\<close>

theorem set_get_roundtrip:
  assumes "ready (snd mw)"
  shows "(cloneable v \<and> v \<noteq> JUndefined \<longrightarrow>
            run_get f2 k (run_set f1 [(k, v)] mw) = Some (Inr v)) \<and>
         run_get f2 k (run_set f1 [(k, JUndefined)] mw) = Some (Inr JNull) \<and>
         (\<not> cloneable v \<longrightarrow>
            set_result f1 [(k, v)] mw = Some (Inl data_clone_error) \<and>
            run_get f2 k' (run_set f1 [(k, v)] mw) = run_get f2 k' mw) \<and>
         (records (the_store (snd mw)) (username (fst mw)) = None \<longrightarrow>
            run_get f2 k mw = Some (Inr JNull)) \<and>
         (records (the_store (snd mw)) (username (fst mw)) = Some r \<and>
          map_of (rec_value r) k = None \<and> k \<notin> set inherited_names \<longrightarrow>
            run_get f2 k mw = Some (Inr JNull)) \<and>
         (\<exists>x. run_get f2 k mw = Some (Inr x))"
proof (intro conjI impI)
  show "run_get f2 k (run_set f1 [(k, v)] mw) = Some (Inr v)" if "cloneable v \<and> v \<noteq> JUndefined"
    using that set_get[OF assms, of "[(k, v)]" f2 k f1]
    by (simp add: get_property_def or_null_defined)
  show "run_get f2 k (run_set f1 [(k, JUndefined)] mw) = Some (Inr JNull)"
    using set_get[OF assms, of "[(k, JUndefined)]" f2 k f1]
    by (simp add: get_property_def or_null_def)
  show "set_result f1 [(k, v)] mw = Some (Inl data_clone_error)" if "\<not> cloneable v"
    using that refused_set_result[OF assms, of "[(k, v)]" f1] by simp
  show "run_get f2 k' (run_set f1 [(k, v)] mw) = run_get f2 k' mw" if "\<not> cloneable v"
    using that refused_set_get[OF assms, of "[(k, v)]" f2 k' f1 f2] by simp
  show "run_get f2 k mw = Some (Inr JNull)" if "records (the_store (snd mw)) (username (fst mw)) = None"
    using that by (simp add: get_in_ready[OF assms])
  show "run_get f2 k mw = Some (Inr JNull)"
    if "records (the_store (snd mw)) (username (fst mw)) = Some r \<and>
        map_of (rec_value r) k = None \<and> k \<notin> set inherited_names"
    using that by (simp add: get_in_ready[OF assms] absent_not_inherited)
  show "\<exists>x. run_get f2 k mw = Some (Inr x)"
    by (simp add: get_in_ready[OF assms])
qed

theorem set_get_roundtrip_witness:
  "ready (snd started) \<and> cloneable (JNum 7) \<and>
   run_get 0 ''buttonClickCount'' (run_set 0 [(''buttonClickCount'', JNum 7)] started)
     = Some (Inr (JNum 7)) \<and>
   \<not> cloneable (JFunction ''f'') \<and>
   set_result 0 [(''buttonClickCount'', JFunction ''f'')] started = Some (Inl data_clone_error) \<and>
   records (the_store (snd started)) (username (fst started)) = None \<and>
   run_get 0 ''buttonClickCount'' started = Some (Inr JNull) \<and>
   run_get 0 ''toString'' started = Some (Inr JNull)"
  using set_get_roundtrip[OF started_ready, of "JNum 7" 0 "''buttonClickCount''" 0 undefined undefined]
    set_get_roundtrip[OF started_ready, of "JFunction ''f''" 0 "''buttonClickCount''" 0 undefined undefined]
    set_get_roundtrip[OF started_ready, of undefined 0 "''toString''" 0 undefined undefined]
    started_ready started_empty
  by simp

section \<open>Owner isolation\<close>



section \<open>The reconnect loop\<close>

lemma is_stale_connection_lost: "is_stale connection_lost"
  by (simp add: is_stale_def connection_lost_def)

lemma is_stale_invalid_state: "is_stale invalid_state_error"
  by (simp add: is_stale_def invalid_state_error_def)

lemma is_stale_not_null: "is_stale e \<Longrightarrow> e \<noteq> JsNull"
  by (auto simp: is_stale_def)

lemma try_block_stale:
  assumes "stale_env w" "isInitialized w"
  shows "\<exists>e w1. try_block names mode w = (Some (Inl e), w1) \<and> is_stale e \<and>
           (w1 = w \<or> w1 = w\<lparr>tx_calls := Suc (tx_calls w)\<rparr>)"
proof (cases "db w")
  case None
  then show ?thesis using assms
    by (simp add: try_block_def ensure_initialized_def is_stale_connection_lost)
next
  case (Some c)
  from assms(1) obtain e where e: "tx_fault w (tx_calls w) = Some e" "is_stale e"
    by (auto simp: stale_env_def split: option.splits dest: spec[of _ "tx_calls w"])
  show ?thesis using assms Some e
    by (simp add: try_block_def ensure_initialized_def db_transaction_def Let_def)
qed

lemma retry_reconnects:
  assumes "\<forall>p. \<not> open_fault w p" "connectionRetryCount w < maxRetries w"
  shows "\<exists>c w2. retryConnection w = (Some (Inr c), w2) \<and> isInitialized w2 \<and>
           connectionRetryCount w2 = 0 \<and> maxRetries w2 = maxRetries w \<and>
           retryDelay w2 = retryDelay w \<and> tx_fault w2 = tx_fault w \<and> open_fault w2 = open_fault w \<and>
           sleeps w2 = sleeps w @ [timeout_delay (retryDelay w) (Suc (connectionRetryCount w))] \<and>
           length (open_log w2) = Suc (length (open_log w))"
  using assms
  by (simp add: retryConnection_def await_initialize_def initialize_def complete_open_def
      idb_open_def request_onsuccess_def resolve_def await_def Let_def)

lemma stale_step:
  assumes "stale_env w" "isInitialized w" "connectionRetryCount w < maxRetries w"
  shows "\<exists>w2. transaction 0 names mode w = (None, w2) \<and>
           (\<forall>n. transaction (Suc n) names mode w = transaction n names mode w2) \<and>
           stale_env w2 \<and> isInitialized w2 \<and> connectionRetryCount w2 = 0 \<and>
           maxRetries w2 = maxRetries w \<and> retryDelay w2 = retryDelay w \<and>
           sleeps w2 = sleeps w @ [timeout_delay (retryDelay w) (Suc (connectionRetryCount w))] \<and>
           length (open_log w2) = Suc (length (open_log w))"
proof -
  obtain e w1 where t: "try_block names mode w = (Some (Inl e), w1)" "is_stale e"
    and w1: "w1 = w \<or> w1 = w\<lparr>tx_calls := Suc (tx_calls w)\<rparr>"
    using try_block_stale[OF assms(1,2)] by blast
  note n = is_stale_not_null[OF t(2)]
  have f: "\<forall>p. \<not> open_fault w1 p" "connectionRetryCount w1 < maxRetries w1"
    using w1 assms by (auto simp: stale_env_def)
  obtain c w2 where r: "retryConnection w1 = (Some (Inr c), w2)" "isInitialized w2"
    "connectionRetryCount w2 = 0" "maxRetries w2 = maxRetries w1" "retryDelay w2 = retryDelay w1"
    "tx_fault w2 = tx_fault w1" "open_fault w2 = open_fault w1"
    "sleeps w2 = sleeps w1 @ [timeout_delay (retryDelay w1) (Suc (connectionRetryCount w1))]"
    "length (open_log w2) = Suc (length (open_log w1))"
    using retry_reconnects[OF f] by blast
  have "transaction 0 names mode w = (None, w2)"
    by (subst transaction.simps) (simp add: t r n)
  moreover have "\<forall>n. transaction (Suc n) names mode w = transaction n names mode w2"
    by (subst transaction.simps) (simp add: t r n)
  moreover have "stale_env w2"
    using assms(1) r w1 by (auto simp: stale_env_def)
  ultimately show ?thesis using r w1 by auto
qed

lemma retry_loop:
  assumes "stale_env w" "isInitialized w" "connectionRetryCount w < maxRetries w"
  shows "fst (transaction fuel names mode w) = None \<and>
         sleeps (snd (transaction fuel names mode w)) =
           sleeps w @ timeout_delay (retryDelay w) (Suc (connectionRetryCount w)) #
             replicate fuel (timeout_delay (retryDelay w) 1) \<and>
         length (open_log (snd (transaction fuel names mode w))) = length (open_log w) + Suc fuel \<and>
         connectionRetryCount (snd (transaction fuel names mode w)) = 0"
  using assms
proof (induction fuel arbitrary: w)
  case 0
  from stale_step[OF 0, of names mode] show ?case by auto
next
  case (Suc n)
  from stale_step[OF Suc.prems, of names mode] obtain w2 where
    s: "transaction (Suc n) names mode w = transaction n names mode w2"
    "stale_env w2" "isInitialized w2" "connectionRetryCount w2 = 0"
    "maxRetries w2 = maxRetries w" "retryDelay w2 = retryDelay w"
    "sleeps w2 = sleeps w @ [timeout_delay (retryDelay w) (Suc (connectionRetryCount w))]"
    "length (open_log w2) = Suc (length (open_log w))"
    by blast
  have "connectionRetryCount w2 < maxRetries w2" using s Suc.prems by simp
  from Suc.IH[OF s(2,3) this] show ?case
    by (simp add: s replicate_app_Cons_same)
qed

lemma stale_world_facts:
  "stale_env stale_world \<and> isInitialized stale_world \<and> connectionRetryCount stale_world = 0 \<and>
   maxRetries stale_world = 3 \<and> retryDelay stale_world = None \<and> sleeps stale_world = [] \<and>
   length (open_log stale_world) = 1"
  by (simp add: stale_world_def stale_env_def is_stale_invalid_state await_initialize_def
      initialize_def new_manager_def complete_open_def idb_open_def request_onsuccess_def
      resolve_def await_def Let_def)

text \<open>
  C1 does not hold of the code. In a connected tab in which every call of
  \<^verbatim>\<open>db.transaction\<close> throws a stale-connection error and every reconnect succeeds,
  \<^verbatim>\<open>transaction\<close> has not returned after any number of nested calls: it has failed
  with no error at all, it has reconnected once per call made (more than
  \<^verbatim>\<open>maxRetries\<close> times, given enough calls), the retry counter is back at 0 after each
  reconnect, and every delay after the first is the delay of attempt number 1.
\<close>

theorem retry_never_exhausted:
  assumes "stale_env w" "isInitialized w" "connectionRetryCount w < maxRetries w"
  shows "fst (transaction fuel names mode w) = None \<and>
         fst (transaction fuel names mode w) \<noteq> Some (Inl max_retry_reached) \<and>
         sleeps (snd (transaction fuel names mode w)) =
           sleeps w @ timeout_delay (retryDelay w) (Suc (connectionRetryCount w)) #
             replicate fuel (timeout_delay (retryDelay w) 1) \<and>
         length (open_log (snd (transaction fuel names mode w))) = length (open_log w) + Suc fuel \<and>
         connectionRetryCount (snd (transaction fuel names mode w)) = 0"
  using retry_loop[OF assms, of fuel names mode] by simp

theorem retry_never_exhausted_witness:
  "stale_env stale_world \<and> isInitialized stale_world \<and>
   connectionRetryCount stale_world < maxRetries stale_world \<and>
   fst (transaction 4 [STORE_NAME] Readwrite stale_world) = None \<and>
   sleeps (snd (transaction 4 [STORE_NAME] Readwrite stale_world)) = [0, 0, 0, 0, 0] \<and>
   length (open_log (snd (transaction 4 [STORE_NAME] Readwrite stale_world))) = 6"
proof -
  have h: "stale_env stale_world" "isInitialized stale_world"
    "connectionRetryCount stale_world < maxRetries stale_world"
    using stale_world_facts by simp_all
  have r: "replicate 4 (0::nat) = [0, 0, 0, 0]"
    by (simp add: numeral_eq_Suc)
  show ?thesis
    using retry_never_exhausted[OF h, of 4 "[STORE_NAME]" Readwrite] h stale_world_facts r
    by (simp add: timeout_delay_def)
qed

section \<open>Coalescing of open requests\<close>

lemma initialize_in_flight:
  "connectionPromise w = Some p \<Longrightarrow> initialize_n n w = (replicate n p, w)"
  by (induction n) (simp_all add: initialize_def)

lemma initialize_first:
  assumes "connectionPromise w = None"
  shows "initialize_n (Suc n) w = (replicate (Suc n) (next_promise w), snd (initialize w))"
proof -
  have "connectionPromise (snd (initialize w)) = Some (next_promise w)"
    using assms by (simp add: initialize_def Let_def)
  from initialize_in_flight[OF this, of n] show ?thesis
    using assms by (simp add: initialize_def Let_def)
qed

text \<open>
  C3. From a manager with no connection attempt in flight, \<open>n \<ge> 1\<close> calls of
  \<^verbatim>\<open>initialize\<close> made before the request settles issue exactly one open request and
  all return the same pending promise; when the browser settles the request, every
  caller observes the same connection, which is the manager's (or, when the open
  fails, every caller observes the same error). With an attempt already in flight
  or settled, the calls issue no further request and all return its promise.
\<close>

theorem initialize_coalesces:
  "(connectionPromise w = None \<and> 0 < n \<longrightarrow>
      fst (initialize_n n w) = replicate n (next_promise w) \<and>
      open_log (snd (initialize_n n w)) = open_log w @ [(next_promise w, None)] \<and>
      promises (snd (initialize_n n w)) (next_promise w) = Pending \<and>
      (\<not> open_fault w (next_promise w) \<longrightarrow>
         (\<exists>c. db (complete_open (next_promise w) (snd (initialize_n n w))) = Some c \<and>
              list_all (\<lambda>p. await (promises (complete_open (next_promise w) (snd (initialize_n n w))) p)
                             = Some (Inr c))
                (fst (initialize_n n w)))) \<and>
      (open_fault w (next_promise w) \<longrightarrow>
         list_all (\<lambda>p. await (promises (complete_open (next_promise w) (snd (initialize_n n w))) p)
                        = Some (Inl failed_to_open))
           (fst (initialize_n n w)))) \<and>
   (connectionPromise w = Some q \<longrightarrow> initialize_n n w = (replicate n q, w))"
proof (intro conjI impI)
  assume a: "connectionPromise w = None \<and> 0 < n"
  then obtain k where n: "n = Suc k" by (cases n) auto
  have f: "initialize_n n w = (replicate n (next_promise w), snd (initialize w))"
    unfolding n using a by (simp only: initialize_first)
  show "fst (initialize_n n w) = replicate n (next_promise w)"
    by (simp add: f)
  show "open_log (snd (initialize_n n w)) = open_log w @ [(next_promise w, None)]"
    using a by (simp add: f initialize_def Let_def)
  show "promises (snd (initialize_n n w)) (next_promise w) = Pending"
    using a by (simp add: f initialize_def Let_def)
  show "\<exists>c. db (complete_open (next_promise w) (snd (initialize_n n w))) = Some c \<and>
          list_all (\<lambda>p. await (promises (complete_open (next_promise w) (snd (initialize_n n w))) p)
                         = Some (Inr c))
            (fst (initialize_n n w))"
    if "\<not> open_fault w (next_promise w)"
    using a that
    by (simp add: f initialize_def complete_open_def idb_open_def request_onsuccess_def
        resolve_def await_def Let_def list_all_iff)
  show "list_all (\<lambda>p. await (promises (complete_open (next_promise w) (snd (initialize_n n w))) p)
                       = Some (Inl failed_to_open))
          (fst (initialize_n n w))"
    if "open_fault w (next_promise w)"
    using a that
    by (simp add: f initialize_def complete_open_def idb_open_def request_onerror_def
        reject_def await_def Let_def list_all_iff)
next
  assume "connectionPromise w = Some q"
  then show "initialize_n n w = (replicate n q, w)"
    by (rule initialize_in_flight)
qed

theorem initialize_coalesces_witness:
  "connectionPromise (new_manager (\<lambda>_. False) (\<lambda>_. None)) = None \<and> (0::nat) < 3 \<and>
   fst (initialize_n 3 (new_manager (\<lambda>_. False) (\<lambda>_. None))) = [0, 0, 0] \<and>
   open_log (snd (initialize_n 3 (new_manager (\<lambda>_. False) (\<lambda>_. None)))) = [(0, None)]"
proof -
  have h: "connectionPromise (new_manager (\<lambda>_. False) (\<lambda>_. None)) = None" "(0::nat) < 3"
    by (simp_all add: new_manager_def)
  have r: "replicate 3 (0::nat) = [0, 0, 0]"
    by (simp add: numeral_eq_Suc)
  show ?thesis
    using initialize_coalesces[of "new_manager (\<lambda>_. False) (\<lambda>_. None)" 3 undefined] h r
    by (simp add: new_manager_def)
qed

section \<open>Cross-tab version change\<close>


















section \<open>Events of a transaction\<close>

lemma run_callback_keeps:
  "fl_tx (run_callback cb fl) = fl_tx fl \<and> fl_onsuccess (run_callback cb fl) = fl_onsuccess fl \<and>
   fl_onerror (run_callback cb fl) = fl_onerror fl \<and> fl_result (run_callback cb fl) = fl_result fl \<and>
   fl_done (run_callback cb fl) = fl_done fl \<and> fl_finished (run_callback cb fl) = fl_finished fl \<and>
   fl_tx_error (run_callback cb fl) = fl_tx_error fl \<and> fl_error (run_callback cb fl) = fl_error fl"
proof (cases cb)
  case None
  then show ?thesis by (simp add: run_callback_def)
next
  case (Some h)
  then show ?thesis by (cases h) (simp_all add: run_callback_def)
qed

lemma error_at_request_keeps:
  "fl_tx (error_at_request fl) = fl_tx fl \<and> fl_onsuccess (error_at_request fl) = fl_onsuccess fl \<and>
   fl_onerror (error_at_request fl) = fl_onerror fl"
  by (simp add: error_at_request_def Let_def run_callback_keeps)

lemma fire_keeps_handlers:
  "fl_tx (fire ev fl) = fl_tx fl \<and> fl_onsuccess (fire ev fl) = fl_onsuccess fl \<and>
   fl_onerror (fire ev fl) = fl_onerror fl"
  by (cases ev) (simp_all add: fire_def Let_def run_callback_keeps error_at_request_keeps)

lemma run_callback_settled:
  assumes "fl_promise fl = Fulfilled r"
  shows "fl_promise (run_callback cb fl) = Fulfilled r"
proof (cases cb)
  case None
  then show ?thesis using assms by (simp add: run_callback_def)
next
  case (Some h)
  with assms show ?thesis by (cases h) (simp_all add: run_callback_def resolve_def reject_def)
qed

lemma error_at_request_settled:
  "fl_promise fl = Fulfilled r \<Longrightarrow> fl_promise (error_at_request fl) = Fulfilled r"
  by (simp add: error_at_request_def Let_def run_callback_settled)

lemma fire_settled:
  "fl_promise fl = Fulfilled r \<Longrightarrow> fl_promise (fire ev fl) = Fulfilled r"
  by (cases ev)
    (simp_all add: fire_def Let_def run_callback_settled error_at_request_settled)

lemma fire_all_settled:
  "fl_promise fl = Fulfilled r \<Longrightarrow> fl_promise (fire_all evs fl) = Fulfilled r"
  by (induction evs arbitrary: fl) (simp_all add: fire_settled)

lemma run_callback_tx_settled:
  assumes "fl_tx_promise fl = Fulfilled t"
  shows "fl_tx_promise (run_callback cb fl) = Fulfilled t"
proof (cases cb)
  case None
  then show ?thesis using assms by (simp add: run_callback_def)
next
  case (Some h)
  with assms show ?thesis by (cases h) (simp_all add: run_callback_def resolve_def reject_def)
qed

lemma error_at_request_tx_settled:
  "fl_tx_promise fl = Fulfilled t \<Longrightarrow> fl_tx_promise (error_at_request fl) = Fulfilled t"
  by (simp add: error_at_request_def Let_def run_callback_tx_settled)

lemma fire_tx_settled:
  "fl_tx_promise fl = Fulfilled t \<Longrightarrow> fl_tx_promise (fire ev fl) = Fulfilled t"
  by (cases ev)
    (simp_all add: fire_def Let_def run_callback_tx_settled error_at_request_tx_settled)

lemma fire_all_tx_settled:
  "fl_tx_promise fl = Fulfilled t \<Longrightarrow> fl_tx_promise (fire_all evs fl) = Fulfilled t"
  by (induction evs arbitrary: fl) (simp_all add: fire_tx_settled)

lemma run_callback_unfulfilled:
  assumes "cb \<noteq> Some GetResolveResult" "cb \<noteq> Some SetResolveRequest"
    "\<forall>v. fl_promise fl \<noteq> Fulfilled v"
  shows "\<forall>v. fl_promise (run_callback cb fl) \<noteq> Fulfilled v"
proof (cases cb)
  case None
  then show ?thesis using assms by (simp add: run_callback_def)
next
  case (Some h)
  with assms show ?thesis
    by (cases h; cases "fl_promise fl") (simp_all add: run_callback_def reject_def)
qed

lemma set_error_unfulfilled:
  assumes "set_handlers fl" "\<forall>v. fl_promise fl \<noteq> Fulfilled v"
  shows "\<forall>v. fl_promise (error_at_request fl) \<noteq> Fulfilled v"
proof -
  have a: "\<forall>v. fl_promise (run_callback (fl_onerror fl) fl) \<noteq> Fulfilled v"
    using assms by (intro run_callback_unfulfilled) (simp_all add: set_handlers_def)
  have b: "onerror (fl_tx (run_callback (fl_onerror fl) fl)) = Some SetRejectError"
    using assms(1) by (simp add: run_callback_keeps set_handlers_def)
  show ?thesis
    unfolding error_at_request_def Let_def b
    by (rule run_callback_unfulfilled[OF _ _ a]) simp_all
qed

lemma set_handlers_update:
  "set_handlers fl \<Longrightarrow>
   set_handlers (fl\<lparr>fl_done := d\<rparr>) \<and> set_handlers (fl\<lparr>fl_error := e\<rparr>) \<and>
   set_handlers (fl\<lparr>fl_finished := f\<rparr>) \<and> set_handlers (fl\<lparr>fl_tx_error := x\<rparr>) \<and>
   set_handlers (fl\<lparr>fl_result := r\<rparr>)"
  by (simp add: set_handlers_def)

lemma set_event_unfulfilled:
  assumes "set_handlers fl" "\<forall>v. fl_promise fl \<noteq> Fulfilled v" "ev \<noteq> TransactionComplete"
  shows "\<forall>v. fl_promise (fire ev fl) \<noteq> Fulfilled v"
proof (cases ev)
  case (RequestSuccess r)
  then show ?thesis using assms by (simp add: fire_def run_callback_def set_handlers_def)
next
  case (RequestError e)
  have h: "set_handlers (fl\<lparr>fl_done := True, fl_error := Some e\<rparr>)"
    using assms(1) by (simp add: set_handlers_def)
  have p: "\<forall>v. fl_promise (fl\<lparr>fl_done := True, fl_error := Some e\<rparr>) \<noteq> Fulfilled v"
    using assms(2) by simp
  note u = set_error_unfulfilled[OF h p]
  have "\<forall>v. fl_promise (run_callback cb
               ((error_at_request (fl\<lparr>fl_done := True, fl_error := Some e\<rparr>))
                  \<lparr>fl_finished := True, fl_tx_error := Some e\<rparr>)) \<noteq> Fulfilled v"
    if "cb = Some TxRejectAborted" for cb
    using u that by (intro run_callback_unfulfilled) simp_all
  moreover have "onabort (fl_tx (error_at_request (fl\<lparr>fl_done := True, fl_error := Some e\<rparr>)))
                   = Some TxRejectAborted"
    using assms(1) by (simp add: error_at_request_keeps set_handlers_def)
  ultimately show ?thesis
    using RequestError assms(2) by (simp add: fire_def Let_def)
next
  case (TransactionAbort eo)
  let ?f1 = "fl\<lparr>fl_finished := True,
                 fl_tx_error := (case eo of None \<Rightarrow> fl_tx_error fl | Some e \<Rightarrow> Some e)\<rparr>"
  let ?f2 = "if fl_done ?f1 then ?f1
             else error_at_request (?f1\<lparr>fl_done := True, fl_error := Some abort_error\<rparr>)"
  have h: "set_handlers (?f1\<lparr>fl_done := True, fl_error := Some abort_error\<rparr>)"
    using assms(1) by (simp add: set_handlers_def)
  have p: "\<forall>v. fl_promise (?f1\<lparr>fl_done := True, fl_error := Some abort_error\<rparr>) \<noteq> Fulfilled v"
    using assms(2) by simp
  have u: "\<forall>v. fl_promise ?f2 \<noteq> Fulfilled v"
    using set_error_unfulfilled[OF h p] assms(2) by simp
  have a: "onabort (fl_tx ?f2) = Some TxRejectAborted"
    using assms(1) by (simp add: error_at_request_keeps set_handlers_def)
  have "\<forall>v. fl_promise (run_callback (onabort (fl_tx ?f2)) ?f2) \<noteq> Fulfilled v"
    unfolding a using u by (intro run_callback_unfulfilled) simp_all
  then show ?thesis
    using TransactionAbort assms(2) by (simp add: fire_def Let_def)
next
  case TransactionComplete
  then show ?thesis using assms by simp
qed

lemma set_waits_for_completion:
  assumes "set_handlers fl" "\<forall>v. fl_promise fl \<noteq> Fulfilled v" "TransactionComplete \<notin> set evs"
  shows "\<forall>v. fl_promise (fire_all evs fl) \<noteq> Fulfilled v"
  using assms
proof (induction evs arbitrary: fl)
  case Nil
  then show ?case by simp
next
  case (Cons ev evs)
  have h: "set_handlers (fire ev fl)"
    using Cons.prems(1) fire_keeps_handlers[of ev fl] by (simp add: set_handlers_def)
  have p: "\<forall>v. fl_promise (fire ev fl) \<noteq> Fulfilled v"
    using set_event_unfulfilled[OF Cons.prems(1,2)] Cons.prems(3) by auto
  from Cons.IH[OF h p] Cons.prems(3) show ?case by simp
qed

lemma set_executor_handlers:
  "set_handlers (set_executor (snd (tx_executor t))) \<and>
   fl_promise (set_executor (snd (tx_executor t))) = Pending"
  by (simp add: set_handlers_def set_executor_def tx_executor_def Let_def)

lemma get_resolves_on_success:
  "fl_promise (fire_all (RequestSuccess r # evs) (get_executor t)) = Fulfilled r"
proof -
  have "fl_promise (fire (RequestSuccess r) (get_executor t)) = Fulfilled r"
    by (simp add: fire_def run_callback_def get_executor_def resolve_def)
  then show ?thesis by (simp add: fire_all_settled)
qed

text \<open>
  C5, as the specification states it, fails for \<^verbatim>\<open>getStoreValue\<close>: once the get
  request has succeeded, and before any completion event of the transaction, its
  promise is fulfilled with the record read.
\<close>

theorem get_resolves_before_completion:
  "fl_promise (fire (RequestSuccess (Some \<lparr>rec_username = ''DEFAULT'', rec_value = [(''a'', JNum 1)]\<rparr>))
                 (get_executor sample_tx))
     = Fulfilled (Some \<lparr>rec_username = ''DEFAULT'', rec_value = [(''a'', JNum 1)]\<rparr>) \<and>
   fl_promise (fire (RequestSuccess (Some \<lparr>rec_username = ''DEFAULT'', rec_value = [(''a'', JNum 1)]\<rparr>))
                 (get_executor sample_tx))
     \<noteq> Pending"
  by (simp add: fire_def run_callback_def get_executor_def resolve_def)

text \<open>
  C5, amended. For a transaction obtained from \<^verbatim>\<open>transaction\<close>: the promise of
  \<^verbatim>\<open>setStoreValue\<close> is not fulfilled by any sequence of events without the
  completion of the transaction, and is fulfilled when the transaction completes
  after the put request succeeded; the promise of \<^verbatim>\<open>getStoreValue\<close> is fulfilled
  with the request's result as soon as the get request succeeds, whatever follows.
\<close>

theorem resolution_points:
  "(TransactionComplete \<notin> set evs \<longrightarrow>
      (\<forall>v. fl_promise (fire_all evs (set_executor (snd (tx_executor t)))) \<noteq> Fulfilled v)) \<and>
   fl_promise (fire_all [RequestSuccess k, TransactionComplete] (set_executor (snd (tx_executor t))))
     = Fulfilled k \<and>
   fl_promise (fire_all (RequestSuccess r # evs') (get_executor (snd (tx_executor t)))) = Fulfilled r"
proof (intro conjI impI)
  show "\<forall>v. fl_promise (fire_all evs (set_executor (snd (tx_executor t)))) \<noteq> Fulfilled v"
    if "TransactionComplete \<notin> set evs"
    using set_waits_for_completion[of "set_executor (snd (tx_executor t))" evs] that
      set_executor_handlers[of t]
    by simp
  show "fl_promise (fire_all [RequestSuccess k, TransactionComplete] (set_executor (snd (tx_executor t))))
          = Fulfilled k"
    by (simp add: fire_def run_callback_def set_executor_def tx_executor_def resolve_def Let_def)
  show "fl_promise (fire_all (RequestSuccess r # evs') (get_executor (snd (tx_executor t)))) = Fulfilled r"
    by (rule get_resolves_on_success)
qed

theorem resolution_points_witness:
  "TransactionComplete \<notin> set [RequestSuccess (Some ''DEFAULT''), TransactionAbort None] \<and>
   fl_promise (fire_all [RequestSuccess (Some ''DEFAULT''), TransactionAbort None] (set_executor sample_tx))
     = Pending \<and>
   fl_promise (fire_all [RequestSuccess (Some ''DEFAULT''), TransactionComplete] (set_executor sample_tx))
     = Fulfilled (Some ''DEFAULT'')"
  using resolution_points[of "[RequestSuccess (Some ''DEFAULT''), TransactionAbort None]"
      "\<lparr>tx_conn = 0, tx_scope = [STORE_NAME], tx_mode = Readwrite,
        onerror = None, onabort = None, oncomplete = None\<rparr>" "Some ''DEFAULT''" undefined undefined]
  by (simp add: sample_tx_def fire_def run_callback_def set_executor_def tx_executor_def
      resolve_def reject_def Let_def)

text \<open>
  C7 does not hold of the code. The promise that \<^verbatim>\<open>transaction\<close> returns is
  fulfilled with the transaction by its own executor, so the two handlers attached
  there reject a settled promise: whatever the engine does to the transaction
  afterwards, an abort included, that promise stays fulfilled and is never rejected
  with 'Transaction was aborted', in \<^verbatim>\<open>getStoreValue\<close> as in \<^verbatim>\<open>setStoreValue\<close>. And
  when the transaction of \<^verbatim>\<open>setStoreValue\<close> is aborted after its put request
  succeeded, as by a failed commit, the only handler of the \<^verbatim>\<open>abort\<close> event is that
  dead one, and the promise of \<^verbatim>\<open>setStoreValue\<close> stays pending.
\<close>

theorem abort_is_swallowed:
  "fst (tx_executor t) = Fulfilled (snd (tx_executor t)) \<and>
   fl_tx_promise (fire_all evs (set_executor (snd (tx_executor t))))
     = Fulfilled (snd (tx_executor t)) \<and>
   fl_tx_promise (fire_all evs (set_executor (snd (tx_executor t))))
     \<noteq> Rejected transaction_aborted \<and>
   fl_tx_promise (fire_all evs' (get_executor (snd (tx_executor t))))
     = Fulfilled (snd (tx_executor t)) \<and>
   fl_tx_promise (fire_all evs' (get_executor (snd (tx_executor t))))
     \<noteq> Rejected transaction_aborted \<and>
   fl_promise (fire_all [RequestSuccess k, TransactionAbort eo] (set_executor (snd (tx_executor t))))
     = Pending"
proof -
  have a: "fst (tx_executor t) = Fulfilled (snd (tx_executor t))"
    by (simp add: tx_executor_def resolve_def Let_def)
  have s: "fl_tx_promise (fire_all evs (set_executor (snd (tx_executor t))))
             = Fulfilled (snd (tx_executor t))"
    by (rule fire_all_tx_settled) (simp add: set_executor_def Let_def)
  have g: "fl_tx_promise (fire_all evs' (get_executor (snd (tx_executor t))))
             = Fulfilled (snd (tx_executor t))"
    by (rule fire_all_tx_settled) (simp add: get_executor_def)
  have p: "fl_promise (fire_all [RequestSuccess k, TransactionAbort eo]
                         (set_executor (snd (tx_executor t)))) = Pending"
    by (simp add: fire_def run_callback_def set_executor_def tx_executor_def
        resolve_def reject_def Let_def)
  show ?thesis using a s g p by simp
qed

section \<open>Creating an object store\<close>










end
